theory Spec2Isabelle
  imports Main "HOL-Library.Word" "HOL-Library.Multiset"
begin

unbundle bit_operations_syntax

section \<open>Data model of \<^verbatim>\<open>readjson.go\<close>\<close>

text \<open>
  The logger is a collaborator that only receives records. A call
  \<^verbatim>\<open>logger.Warn(msg, attrs...)\<close> is modelled as the entry \<open>Log Warn msg\<close> appended to the
  list of entries the function returns next to its result; the structured attributes
  (\<^verbatim>\<open>"device", device\<close>, \<^verbatim>\<open>"err", err\<close>, ...) are not kept.
\<close>

datatype level = Debug | Warn | Error

datatype log_entry = Log level string

type_synonym log = "log_entry list"

text \<open>
  Modelled from the spec: the struct \<^verbatim>\<open>Device\<close> is declared outside \<^verbatim>\<open>readjson.go\<close>; the file
  reads its fields \<^verbatim>\<open>Name\<close> and \<^verbatim>\<open>Type\<close> and uses the whole value as a cache key. The spec
  describes it as "a name/path and a type tag", compared by value.
\<close>

record Device =
  Name :: string
  Type :: string

text \<open>\<^verbatim>\<open>int64\<close>: a 64-bit word, read as two's complement by \<open>sint\<close>.\<close>

type_synonym int64 = "64 word"

text \<open>
  \<^verbatim>\<open>time.Time\<close> and \<^verbatim>\<open>time.Duration\<close> are counted in nanoseconds, from the zero
  \<^verbatim>\<open>time.Time\<close>. \<^verbatim>\<open>t.Add(d)\<close> is \<open>t + d\<close> and \<^verbatim>\<open>now.After(t)\<close> is \<open>t < now\<close>.
\<close>

type_synonym time = int

section \<open>The status decoder\<close>

text \<open>
  \<^verbatim>\<open>resultCodeIsOk\<close> (lines 137-169). Each \<^verbatim>\<open>if (b & (1 << k)) != 0\<close> of the source is one
  step on the pair of the entries logged so far and the local \<^verbatim>\<open>result\<close>: the two error
  flags log at level Error and clear \<^verbatim>\<open>result\<close>, the six warning flags only log.
\<close>

definition flag_error :: "int64 \<Rightarrow> nat \<Rightarrow> string \<Rightarrow> log \<times> bool \<Rightarrow> log \<times> bool" where
  "flag_error b k msg st =
     (if b AND push_bit k 1 \<noteq> 0 then (fst st @ [Log Error msg], False) else st)"

definition flag_warn :: "int64 \<Rightarrow> nat \<Rightarrow> string \<Rightarrow> log \<times> bool \<Rightarrow> log \<times> bool" where
  "flag_warn b k msg st =
     (if b AND push_bit k 1 \<noteq> 0 then (fst st @ [Log Warn msg], snd st) else st)"

definition msg_bit0 :: string where
  "msg_bit0 = ''Command line did not parse''"

definition msg_bit1 :: string where
  "msg_bit1 = ''Device open failed, device did not return an IDENTIFY DEVICE structure, or device is in a low-power mode''"

definition msg_bit2 :: string where
  "msg_bit2 = ''Some SMART or other ATA command to the disk failed, or there was a checksum error in a SMART data structure''"

definition msg_bit3 :: string where
  "msg_bit3 = ''SMART status check returned 'DISK FAILING'' @ [CHR 0x27]"

definition msg_bit4 :: string where
  "msg_bit4 = ''We found prefail Attributes <= threshold''"

definition msg_bit5 :: string where
  "msg_bit5 = ''SMART status check returned 'DISK OK' but we found that some (usage or prefail) Attributes have been <= threshold at some time in the past''"

definition msg_bit6 :: string where
  "msg_bit6 = ''The device error log contains records of errors''"

definition msg_bit7 :: string where
  "msg_bit7 = ''The device self-test log contains records of errors. [ATA only] Failed self-tests outdated by a newer successful extended self-test are ignored''"

definition resultCodeIsOk :: "Device \<Rightarrow> int64 \<Rightarrow> log \<times> bool" where
  "resultCodeIsOk device SMARTCtlResult =
     (if 0 < sint SMARTCtlResult then
        (let b = SMARTCtlResult in
           flag_warn b 7 msg_bit7
          (flag_warn b 6 msg_bit6
          (flag_warn b 5 msg_bit5
          (flag_warn b 4 msg_bit4
          (flag_warn b 3 msg_bit3
          (flag_warn b 2 msg_bit2
          (flag_error b 1 msg_bit1
          (flag_error b 0 msg_bit0 ([], True)))))))))
      else ([], True))"

section \<open>Collaborators outside the file\<close>

text \<open>
  \<^verbatim>\<open>github.com/tidwall/gjson\<close> is a third-party library: its source is not part of the
  repository. The operations \<^verbatim>\<open>readjson.go\<close> calls are taken as a parameter, a record of
  functions over an arbitrary type \<open>'r\<close> of results (\<^verbatim>\<open>gjson.Result\<close>): \<^verbatim>\<open>gjson.Valid\<close>,
  \<^verbatim>\<open>gjson.Parse\<close>, the zero value \<^verbatim>\<open>gjson.Result{}\<close>, and the methods \<^verbatim>\<open>Get\<close>, \<^verbatim>\<open>Int\<close>,
  \<^verbatim>\<open>Exists\<close>, \<^verbatim>\<open>Array\<close> and \<^verbatim>\<open>String\<close>. Every function of the file that uses the library
  takes the record as its first argument, so what is proved holds for every behaviour of the
  library unless a theorem states an assumption on it.
\<close>

record 'r gjson =
  gj_Valid :: "string \<Rightarrow> bool"
  gj_Parse :: "string \<Rightarrow> 'r"
  gj_Zero :: 'r
  gj_Get :: "'r \<Rightarrow> string \<Rightarrow> 'r"
  gj_Int :: "'r \<Rightarrow> int64"
  gj_Exists :: "'r \<Rightarrow> bool"
  gj_Array :: "'r \<Rightarrow> 'r list"
  gj_String :: "'r \<Rightarrow> string"

text \<open>
  \<^verbatim>\<open>exec.Command(...).Output()\<close> returns the captured standard output and an error. The
  error is \<^verbatim>\<open>nil\<close>, an \<^verbatim>\<open>*exec.ExitError\<close> (the process ran and did not exit with status 0;
  \<^verbatim>\<open>ExitCode()\<close> is its status), or any other error: the process could not be started (binary
  missing, permission denied). The outcome of the call is an input of the model.
\<close>

datatype exec_error = ExitError int | StartError

type_synonym exec_output = "string \<times> exec_error option"

text \<open>
  What \<^verbatim>\<open>Output()\<close> returns when the process could not be started: \<^verbatim>\<open>os/exec\<close> hands back
  the bytes written to standard output, and a process that never ran wrote none.
\<close>

definition launch_failure :: exec_output where
  "launch_failure = ([], Some StartError)"

text \<open>\<^verbatim>\<open>strings.HasPrefix\<close>, \<^verbatim>\<open>strings.TrimPrefix\<close> and \<^verbatim>\<open>strings.Split\<close> on a one-byte separator.\<close>

definition HasPrefix :: "string \<Rightarrow> string \<Rightarrow> bool" where
  "HasPrefix s pre = (length pre \<le> length s \<and> take (length pre) s = pre)"

definition TrimPrefix :: "string \<Rightarrow> string \<Rightarrow> string" where
  "TrimPrefix s pre = (if HasPrefix s pre then drop (length pre) s else s)"

fun Split :: "char \<Rightarrow> string \<Rightarrow> string list" where
  "Split sep [] = [[]]"
| "Split sep (c # cs) =
     (if c = sep then [] # Split sep cs
      else (case Split sep cs of [] \<Rightarrow> [[c]] | x # xs \<Rightarrow> (c # x) # xs))"

section \<open>The cache\<close>

text \<open>
  \<^verbatim>\<open>JSONCache\<close> (lines 29-32) and the global \<^verbatim>\<open>jsonCache\<close>, a \<^verbatim>\<open>sync.Map\<close>. Its keys are of
  type \<^verbatim>\<open>any\<close>: \<^verbatim>\<open>init\<close> stores under the string \<^verbatim>\<open>""\<close>, every other access uses a \<^verbatim>\<open>Device\<close>,
  and a string never equals a struct. \<^verbatim>\<open>Load\<close> is application, \<^verbatim>\<open>Store\<close> is map update.
\<close>

record 'r JSONCache =
  JSON :: 'r
  LastCollect :: time

datatype cache_key = StrKey string | DevKey Device

type_synonym 'r cache = "cache_key \<Rightarrow> 'r JSONCache option"

definition init_cache :: "'r gjson \<Rightarrow> 'r cache" where
  "init_cache G = Map.empty(StrKey [] \<mapsto> \<lparr>JSON = gj_Zero G, LastCollect = 0\<rparr>)"

section \<open>Parsing and the message check\<close>

text \<open>\<^verbatim>\<open>parseJSON\<close> (lines 43-48).\<close>

definition parseJSON :: "'r gjson \<Rightarrow> string \<Rightarrow> 'r" where
  "parseJSON G data = (if \<not> gj_Valid G data then gj_Parse G ''{}'' else gj_Parse G data)"

text \<open>
  \<^verbatim>\<open>jsonIsOk\<close> (lines 172-184). The \<^verbatim>\<open>range\<close> loop over \<^verbatim>\<open>messages.Array()\<close> returns at the
  first message whose severity is \<^verbatim>\<open>"error"\<close>, after logging its text.
\<close>

fun scan_messages :: "'r gjson \<Rightarrow> 'r list \<Rightarrow> log \<times> bool" where
  "scan_messages G [] = ([], True)"
| "scan_messages G (message # rest) =
     (if gj_String G (gj_Get G message ''severity'') = ''error''
      then ([Log Error (gj_String G (gj_Get G message ''string''))], False)
      else scan_messages G rest)"

definition jsonIsOk :: "'r gjson \<Rightarrow> 'r \<Rightarrow> log \<times> bool" where
  "jsonIsOk G json =
     (let messages = gj_Get G json ''smartctl.messages'' in
      if gj_Exists G messages then scan_messages G (gj_Array G messages) else ([], True))"

section \<open>Collecting one device\<close>

definition artifact :: string where
  "artifact = ''  Pending defect count:''"

text \<open>
  \<^verbatim>\<open>readSMARTctl\<close> (lines 64-83). \<open>res\<close> is what \<^verbatim>\<open>Output()\<close> returned and \<open>now\<close> what
  \<^verbatim>\<open>time.Now()\<close> returns at the \<^verbatim>\<open>Store\<close>; the function returns the entries it logged and the
  cache after the call. The argument list of the command and the duration that is logged do
  not reach the cache.
\<close>

definition readSMARTctl ::
  "'r gjson \<Rightarrow> Device \<Rightarrow> exec_output \<Rightarrow> time \<Rightarrow> 'r cache \<Rightarrow> log \<times> 'r cache" where
  "readSMARTctl G device res now c =
     (let out = fst res;
          err = snd res;
          l1 = [Log Debug ''Calling smartctl with args''];
          l2 = (if err \<noteq> None then [Log Warn ''S.M.A.R.T. output reading''] else []);
          cleaned_out = TrimPrefix out artifact;
          json = parseJSON G cleaned_out;
          rc = resultCodeIsOk device (gj_Int G (gj_Get G json ''smartctl.exit_status''));
          js = jsonIsOk G json;
          l5 = [Log Debug ''Collected S.M.A.R.T. json data'']
      in (l1 @ l2 @ fst rc @ fst js @ l5,
          if snd rc \<and> snd js
          then c(DevKey device \<mapsto> \<lparr>JSON = json, LastCollect = now\<rparr>)
          else c))"

section \<open>Scanning for devices\<close>

text \<open>
  \<^verbatim>\<open>readSMARTctlDevices\<close> (lines 85-104); \<open>res\<close> is what \<^verbatim>\<open>Output()\<close> returned for the scan
  command.
\<close>

definition readSMARTctlDevices :: "'r gjson \<Rightarrow> exec_output \<Rightarrow> log \<times> 'r" where
  "readSMARTctlDevices G res =
     (let out = fst res;
          l1 = [Log Debug ''Scanning for devices'']
      in case snd res of
           Some (ExitError code) \<Rightarrow>
             (if code \<noteq> 2
              then (l1 @ [Log Debug ''Exit Status'', Log Warn ''S.M.A.R.T. output reading error''],
                    gj_Zero G)
              else (l1 @ [Log Debug ''Exit Status''], parseJSON G out))
         | Some StartError \<Rightarrow> (l1 @ [Log Warn ''S.M.A.R.T. output reading error''], gj_Zero G)
         | None \<Rightarrow> (l1, parseJSON G out))"

section \<open>Reading\<close>

text \<open>
  \<^verbatim>\<open>readFakeSMARTctl\<close> (lines 51-61). \<open>ReadFile\<close> is the file system: the content of a file,
  or \<open>None\<close> where \<^verbatim>\<open>os.ReadFile\<close> returns an error. \<^verbatim>\<open>strings.Split\<close> never returns an empty
  slice, so \<^verbatim>\<open>s[len(s)-1]\<close> is its last element.
\<close>

definition readFakeSMARTctl :: "'r gjson \<Rightarrow> (string \<Rightarrow> string option) \<Rightarrow> Device \<Rightarrow> log \<times> 'r" where
  "readFakeSMARTctl G ReadFile device =
     (let s = Split (CHR ''/'') (Name device);
          filename = ''debug/'' @ last s @ ''.json'';
          l1 = [Log Debug ''Read fake S.M.A.R.T. data from json'']
      in case ReadFile filename of
           None \<Rightarrow> (l1 @ [Log Error ''Fake S.M.A.R.T. data reading error''], parseJSON G ''{}'')
         | Some jsonFile \<Rightarrow> (l1, parseJSON G jsonFile))"

text \<open>\<^verbatim>\<open>readData\<close> (lines 123-134); \<open>fake\<close> is the flag \<^verbatim>\<open>*smartctlFakeData\<close>.\<close>

definition readData ::
  "'r gjson \<Rightarrow> bool \<Rightarrow> (string \<Rightarrow> string option) \<Rightarrow> 'r cache \<Rightarrow> Device \<Rightarrow> log \<times> 'r" where
  "readData G fake ReadFile c device =
     (if fake then readFakeSMARTctl G ReadFile device
      else (case c (DevKey device) of
              None \<Rightarrow> ([Log Warn ''device not found''], gj_Zero G)
            | Some cacheValue \<Rightarrow> ([], JSON cacheValue)))"

section \<open>Refreshing all devices\<close>

text \<open>
  The condition of line 115: the device has no entry, or \<^verbatim>\<open>time.Now()\<close> is after
  \<^verbatim>\<open>LastCollect.Add(*smartctlInterval)\<close>. The spec calls it \<^verbatim>\<open>Cache.isStale\<close>.
\<close>

definition isStale :: "'r JSONCache option \<Rightarrow> time \<Rightarrow> time \<Rightarrow> bool" where
  "isStale cacheValue interval now =
     (case cacheValue of None \<Rightarrow> True | Some v \<Rightarrow> LastCollect v + interval < now)"

text \<open>
  \<^verbatim>\<open>refreshAllDevices\<close> (lines 107-121) starts one goroutine per stale device and waits for
  them on a \<^verbatim>\<open>sync.WaitGroup\<close>. The goroutines run concurrently with the loop and with each
  other, so the function is modelled as a state machine whose events are the atomic actions
  of the threads, in the order a scheduler picks:
  \<^item> \<open>Examine now\<close>: one iteration of the \<^verbatim>\<open>range\<close> loop: the \<^verbatim>\<open>Load\<close> of line 114, the
    test of line 115 with \<open>now\<close> the value of \<^verbatim>\<open>time.Now()\<close>, and for a stale device
    \<^verbatim>\<open>wg.Add(1)\<close> and the start of a goroutine;
  \<^item> \<open>Finish d res now\<close>: a running goroutine for \<open>d\<close> completes: \<^verbatim>\<open>readSMARTctl\<close> with the
    outcome \<open>res\<close> of its command, \<open>now\<close> the value its \<^verbatim>\<open>time.Now()\<close> of line 81 gave, the
    \<^verbatim>\<open>Store\<close>, and the deferred \<^verbatim>\<open>wg.Done()\<close>. A goroutine reads no shared state and
    writes the cache once; the loop does not read the counter, and \<^verbatim>\<open>wg.Wait()\<close> cannot
    return between the \<^verbatim>\<open>Store\<close> and the \<^verbatim>\<open>Done\<close>, so the two are one action;
  \<^item> \<open>Return\<close>: the function returns, at once when \<^verbatim>\<open>*smartctlFakeData\<close> is set, otherwise
    from \<^verbatim>\<open>wg.Wait()\<close>, which needs the loop to be over and the counter to be zero.
  The times of the events are not ordered. The loop reads the clock after its \<^verbatim>\<open>Load\<close>,
  and a goroutine reads it before its \<^verbatim>\<open>Store\<close>, so a \<^verbatim>\<open>Store\<close> that lands after a later
  check can carry an earlier time: every time is a free input of its event.
  The state holds what the code holds (the rest of the slice, the counter, the goroutines
  alive, the cache, whether the call has returned) and a history of what happened: the
  entries examined with the cache entry and time seen, the devices a goroutine was started
  for, and the devices whose goroutine completed. An event that is not enabled yields
  \<open>None\<close>. \<^verbatim>\<open>wg.Done()\<close> panics on a zero counter; the counter counts the goroutines alive
  (lemma \<open>inv_run\<close>), so that guard of \<open>Finish\<close> never holds a goroutine back.
\<close>

record 'r visit =
  v_dev :: Device
  v_entry :: "'r JSONCache option"
  v_now :: time

record 'r orch =
  todo :: "Device list"
  wg :: nat
  running :: "Device list"
  jsonCache :: "'r cache"
  returned :: bool
  visited :: "'r visit list"
  scheduled :: "Device list"
  finished :: "Device list"

datatype event = Examine time | Finish Device exec_output time | Return

definition start :: "Device list \<Rightarrow> 'r cache \<Rightarrow> 'r orch" where
  "start devices c =
     \<lparr>todo = devices, wg = 0, running = [], jsonCache = c, returned = False,
      visited = [], scheduled = [], finished = []\<rparr>"

fun fire :: "'r gjson \<Rightarrow> bool \<Rightarrow> time \<Rightarrow> 'r orch \<Rightarrow> event \<Rightarrow> 'r orch option" where
  "fire G fake interval s Return =
     (if returned s then None
      else if fake then Some (s\<lparr>returned := True\<rparr>)
      else if todo s = [] \<and> wg s = 0 then Some (s\<lparr>returned := True\<rparr>)
      else None)"
| "fire G fake interval s (Examine now) =
     (if returned s \<or> fake then None
      else (case todo s of
              [] \<Rightarrow> None
            | device # rest \<Rightarrow>
                (let cacheValue = jsonCache s (DevKey device);
                     s1 = s\<lparr>todo := rest,
                            visited := visited s @
                              [\<lparr>v_dev = device, v_entry = cacheValue, v_now = now\<rparr>]\<rparr>
                 in if isStale cacheValue interval now
                    then Some (s1\<lparr>wg := wg s + 1, running := running s @ [device],
                                  scheduled := scheduled s @ [device]\<rparr>)
                    else Some s1)))"
| "fire G fake interval s (Finish device res now) =
     (if device \<notin> set (running s) \<or> wg s = 0 then None
      else Some (s\<lparr>jsonCache := snd (readSMARTctl G device res now (jsonCache s)),
                   running := remove1 device (running s), wg := wg s - 1,
                   finished := finished s @ [device]\<rparr>))"

fun run :: "'r gjson \<Rightarrow> bool \<Rightarrow> time \<Rightarrow> 'r orch \<Rightarrow> event list \<Rightarrow> 'r orch option" where
  "run G fake interval s [] = Some s"
| "run G fake interval s (e # es) =
     (case fire G fake interval s e of
        None \<Rightarrow> None
      | Some s' \<Rightarrow> run G fake interval s' es)"

text \<open>
  A call of \<^verbatim>\<open>refreshAllDevices\<close> on the cache \<open>c\<close>, under a schedule: the state the
  schedule leads to, or \<open>None\<close> when the schedule is not one of the program.
\<close>

definition refreshAllDevices ::
  "'r gjson \<Rightarrow> bool \<Rightarrow> time \<Rightarrow> Device list \<Rightarrow> 'r cache \<Rightarrow> event list \<Rightarrow> 'r orch option"
  where
  "refreshAllDevices G fake interval devices c schedule =
     run G fake interval (start devices c) schedule"

section \<open>Notions of the specification\<close>

text \<open>
  The status code of a parsed document and the document a collection parses, as
  \<^verbatim>\<open>readSMARTctl\<close> computes them (lines 75-77).
\<close>

definition status_code :: "'r gjson \<Rightarrow> 'r \<Rightarrow> int64" where
  "status_code G json = gj_Int G (gj_Get G json ''smartctl.exit_status'')"

definition collected :: "'r gjson \<Rightarrow> exec_output \<Rightarrow> 'r" where
  "collected G res = parseJSON G (TrimPrefix (fst res) artifact)"

text \<open>The message list of a document is present and holds a message of severity "error".\<close>

definition is_error :: "'r gjson \<Rightarrow> 'r \<Rightarrow> bool" where
  "is_error G message = (gj_String G (gj_Get G message ''severity'') = ''error'')"

definition has_error_message :: "'r gjson \<Rightarrow> 'r \<Rightarrow> bool" where
  "has_error_message G json =
     (gj_Exists G (gj_Get G json ''smartctl.messages'') \<and>
      (\<exists>m \<in> set (gj_Array G (gj_Get G json ''smartctl.messages'')). is_error G m))"

text \<open>
  The table of section 4.1 of the specification, one row per bit, and the entries it asks
  the decoder to log for an 8-bit status code: the rows of the bits that are set, in order.
\<close>

definition flag_table :: "(level \<times> string) list" where
  "flag_table =
     [(Error, msg_bit0), (Error, msg_bit1), (Warn, msg_bit2), (Warn, msg_bit3),
      (Warn, msg_bit4), (Warn, msg_bit5), (Warn, msg_bit6), (Warn, msg_bit7)]"

definition table_log :: "8 word \<Rightarrow> log" where
  "table_log c =
     concat (map (\<lambda>k. if bit c k then [Log (fst (flag_table ! k)) (snd (flag_table ! k))] else [])
                 [0..<8])"

text \<open>
  What holds of every state of a call of \<^verbatim>\<open>refreshAllDevices\<close> on the devices \<open>devices\<close> and
  the cache \<open>c\<close>: the entries examined and those left are the device list; a goroutine was
  started for exactly the examined entries that were stale when examined; the counter counts
  the goroutines alive; every goroutine started is alive or has completed; the cache differs
  from \<open>c\<close> only at devices a goroutine was started for; when no device is listed twice,
  the entry seen for a device is its entry in \<open>c\<close>; in fake mode nothing happens; and
  the call has returned only with the loop over and no goroutine alive.
\<close>

definition stale_visit :: "time \<Rightarrow> 'r visit \<Rightarrow> bool" where
  "stale_visit interval v = isStale (v_entry v) interval (v_now v)"

definition refresh_inv :: "bool \<Rightarrow> time \<Rightarrow> Device list \<Rightarrow> 'r cache \<Rightarrow> 'r orch \<Rightarrow> bool" where
  "refresh_inv fake interval devices c s =
     (map v_dev (visited s) @ todo s = devices \<and>
      scheduled s = map v_dev (filter (stale_visit interval) (visited s)) \<and>
      wg s = length (running s) \<and>
      mset (scheduled s) = mset (running s) + mset (finished s) \<and>
      (\<forall>k. k \<notin> DevKey ` set (scheduled s) \<longrightarrow> jsonCache s k = c k) \<and>
      (distinct devices \<longrightarrow> (\<forall>v \<in> set (visited s). v_entry v = c (DevKey (v_dev v)))) \<and>
      (fake \<longrightarrow> visited s = [] \<and> scheduled s = []) \<and>
      (returned s \<and> \<not> fake \<longrightarrow> todo s = [] \<and> running s = []))"

section \<open>A sample instance of the library\<close>

text \<open>
  To evaluate the model on concrete inputs the interface needs an instance. This one keeps a
  document as a tree and reads a fixed set of sample texts; on those texts and on the paths
  the program asks for it answers as gjson does. It is not a JSON parser: any other text is
  invalid for it. \<^verbatim>\<open>Result\<close> is \<open>jv option\<close>, \<open>None\<close> being the result that does not exist.
\<close>

datatype jv = JNull | JBool bool | JNum int | JStr string | JArr "jv list" | JObj "(string \<times> jv) list"

definition doc_healthy :: string where
  \<open>doc_healthy = ''{"smartctl":{"exit_status":0}}''\<close>

definition doc_open_failed :: string where
  \<open>doc_open_failed = ''{"smartctl":{"exit_status":2}}''\<close>

definition doc_error_message :: string where
  \<open>doc_error_message =
     ''{"smartctl":{"exit_status":0,"messages":[{"string":"boom","severity":"error"}]}}''\<close>

definition doc_scan :: string where
  \<open>doc_scan = ''{"devices":[]}''\<close>

definition tree_healthy :: jv where
  "tree_healthy = JObj [(''smartctl'', JObj [(''exit_status'', JNum 0)])]"

definition tree_open_failed :: jv where
  "tree_open_failed = JObj [(''smartctl'', JObj [(''exit_status'', JNum 2)])]"

definition tree_error_message :: jv where
  "tree_error_message =
     JObj [(''smartctl'', JObj [(''exit_status'', JNum 0),
       (''messages'', JArr [JObj [(''string'', JStr ''boom''), (''severity'', JStr ''error'')]])])]"

definition tree_scan :: jv where
  "tree_scan = JObj [(''devices'', JArr [])]"

definition sample_docs :: "(string \<times> jv) list" where
  "sample_docs =
     [(''{}'', JObj []), (doc_healthy, tree_healthy), (doc_open_failed, tree_open_failed),
      (doc_error_message, tree_error_message), (doc_scan, tree_scan)]"

fun sample_member :: "jv option \<Rightarrow> string \<Rightarrow> jv option" where
  "sample_member (Some (JObj kvs)) k = map_of kvs k"
| "sample_member _ k = None"

definition sample_Get :: "jv option \<Rightarrow> string \<Rightarrow> jv option" where
  "sample_Get r path = foldl sample_member r (Split (CHR ''.'') path)"

fun sample_Int :: "jv option \<Rightarrow> int64" where
  "sample_Int (Some (JNum n)) = word_of_int n"
| "sample_Int (Some (JBool True)) = 1"
| "sample_Int _ = 0"

fun sample_Array :: "jv option \<Rightarrow> jv option list" where
  "sample_Array None = []"
| "sample_Array (Some JNull) = []"
| "sample_Array (Some (JArr xs)) = map Some xs"
| "sample_Array (Some v) = [Some v]"

fun sample_String :: "jv option \<Rightarrow> string" where
  "sample_String (Some (JStr s)) = s"
| "sample_String (Some (JBool True)) = ''true''"
| "sample_String (Some (JBool False)) = ''false''"
| "sample_String _ = []"

definition sample_gjson :: "jv option gjson" where
  "sample_gjson =
     \<lparr>gj_Valid = (\<lambda>s. map_of sample_docs s \<noteq> None),
      gj_Parse = map_of sample_docs,
      gj_Zero = None,
      gj_Get = sample_Get,
      gj_Int = sample_Int,
      gj_Exists = (\<lambda>r. r \<noteq> None),
      gj_Array = sample_Array,
      gj_String = sample_String\<rparr>"


definition sda :: Device where
  "sda = \<lparr>Name = ''/dev/sda'', Type = ''sat''\<rparr>"

definition sdb :: Device where
  "sdb = \<lparr>Name = ''/dev/sdb'', Type = ''sat''\<rparr>"

text \<open>A cache in which \<^verbatim>\<open>/dev/sda\<close> was collected at time 10, with the healthy document.\<close>

definition seeded :: "jv option cache" where
  "seeded = (init_cache sample_gjson)
     (DevKey sda \<mapsto> \<lparr>JSON = gj_Parse sample_gjson doc_healthy, LastCollect = 10\<rparr>)"

text \<open>
  The same cache with a second entry: \<^verbatim>\<open>/dev/sdc\<close>, collected at time 45.
\<close>

definition sdc :: Device where
  "sdc = \<lparr>Name = ''/dev/sdc'', Type = ''sat''\<rparr>"

definition seeded_two :: "jv option cache" where
  "seeded_two = seeded
     (DevKey sdc \<mapsto> \<lparr>JSON = gj_Parse sample_gjson doc_healthy, LastCollect = 45\<rparr>)"

section \<open>The status decoder: proofs\<close>

lemma flag_error_eq:
  "flag_error b k msg st = (if bit b k then (fst st @ [Log Error msg], False) else st)"
  unfolding flag_error_def by (simp only: bit_iff_and_push_bit_not_eq_0)

lemma flag_warn_eq:
  "flag_warn b k msg st = (if bit b k then (fst st @ [Log Warn msg], snd st) else st)"
  unfolding flag_warn_def by (simp only: bit_iff_and_push_bit_not_eq_0)

lemma snd_flag_warn: "snd (flag_warn b k msg st) = snd st"
  by (simp add: flag_warn_eq)

lemma snd_flag_error: "snd (flag_error b k msg st) = (snd st \<and> \<not> bit b k)"
  by (simp add: flag_error_eq)

lemma fst_flag_warn:
  "fst (flag_warn b k msg st) = fst st @ (if bit b k then [Log Warn msg] else [])"
  by (simp add: flag_warn_eq)

lemma fst_flag_error:
  "fst (flag_error b k msg st) = fst st @ (if bit b k then [Log Error msg] else [])"
  by (simp add: flag_error_eq)

lemma resultCodeIsOk_snd:
  "snd (resultCodeIsOk d b) = (\<not> (0 < sint b \<and> (bit b 0 \<or> bit b 1)))"
  unfolding resultCodeIsOk_def Let_def
  by (simp only: snd_flag_warn snd_flag_error split: if_split) auto

lemma resultCodeIsOk_fst:
  "fst (resultCodeIsOk d b) =
   (if 0 < sint b then
     (if bit b 0 then [Log Error msg_bit0] else []) @
     (if bit b 1 then [Log Error msg_bit1] else []) @
     (if bit b 2 then [Log Warn msg_bit2] else []) @
     (if bit b 3 then [Log Warn msg_bit3] else []) @
     (if bit b 4 then [Log Warn msg_bit4] else []) @
     (if bit b 5 then [Log Warn msg_bit5] else []) @
     (if bit b 6 then [Log Warn msg_bit6] else []) @
     (if bit b 7 then [Log Warn msg_bit7] else [])
    else [])"
  unfolding resultCodeIsOk_def Let_def
  by (simp only: fst_flag_warn fst_flag_error fst_conv append_Nil append_assoc split: if_split) simp

lemma bit_ucast8: "bit (ucast (c::8 word) :: int64) k = bit c k"
  by (auto simp add: bit_ucast_iff dest: bit_imp_le_length)

lemma uint8_lt: "uint (c::8 word) < 256"
  using uint_bounded [of c] by simp

lemma sint_ucast8: "sint (ucast (c::8 word) :: int64) = uint c"
proof -
  have e: "uint (ucast c :: int64) = uint c"
    by (simp add: uint_up_ucast is_up)
  have lo: "- (2 ^ 63) \<le> uint c"
    by (rule order_trans [OF _ uint_ge_0]) simp
  have hi: "uint c < 2 ^ 63"
    by (rule less_trans [OF uint8_lt]) simp
  have "signed_take_bit 63 (uint c) = uint c"
    using lo hi by (rule signed_take_bit_int_eq_self)
  then show ?thesis
    by (simp add: sint_uint e)
qed

lemma pos_ucast8: "(0 < sint (ucast (c::8 word) :: int64)) = (c \<noteq> 0)"
  unfolding sint_ucast8
  by (metis word_less_def unat_gt_0 unsigned_eq_0_iff word_less_nat_alt)

lemma upt8: "[0..<8] = [0, 1, 2, 3, 4, 5, 6, 7::nat]"
  by (simp add: upt_rec)

lemma table_log_eq:
  "table_log c =
     (if bit c 0 then [Log Error msg_bit0] else []) @
     (if bit c 1 then [Log Error msg_bit1] else []) @
     (if bit c 2 then [Log Warn msg_bit2] else []) @
     (if bit c 3 then [Log Warn msg_bit3] else []) @
     (if bit c 4 then [Log Warn msg_bit4] else []) @
     (if bit c 5 then [Log Warn msg_bit5] else []) @
     (if bit c 6 then [Log Warn msg_bit6] else []) @
     (if bit c 7 then [Log Warn msg_bit7] else [])"
  unfolding table_log_def upt8 flag_table_def by simp

lemma table_log_0: "table_log 0 = []"
  unfolding table_log_eq by simp

text \<open>
  Claim C2. For every 8-bit status code \<open>c\<close>, handed to the decoder as an \<^verbatim>\<open>int64\<close>, the
  decoder answers "inadmissible" exactly when bit 0 or bit 1 of \<open>c\<close> is set, and logs exactly
  the rows of the specification's table for the bits that are set: an error for bits 0 and 1,
  a warning for bits 2 to 7, which therefore do not block admission. The zero code is
  admissible and logs nothing.
\<close>

theorem decoder_8bit:
  "resultCodeIsOk d (ucast (c::8 word)) = (table_log c, \<not> (bit c 0 \<or> bit c 1))"
proof (rule prod_eqI)
  show "fst (resultCodeIsOk d (ucast c)) = fst (table_log c, \<not> (bit c 0 \<or> bit c 1))"
  proof (cases "c = 0")
    case True
    then show ?thesis
      by (simp add: resultCodeIsOk_fst table_log_0)
  next
    case False
    then show ?thesis
      by (simp only: resultCodeIsOk_fst pos_ucast8 bit_ucast8 table_log_eq fst_conv if_True
          simp_thms)
  qed
  show "snd (resultCodeIsOk d (ucast c)) = snd (table_log c, \<not> (bit c 0 \<or> bit c 1))"
  proof (cases "c = 0")
    case True
    then show ?thesis
      by (simp add: resultCodeIsOk_snd)
  next
    case False
    then show ?thesis
      by (simp only: resultCodeIsOk_snd pos_ucast8 bit_ucast8 snd_conv simp_thms)
  qed
qed

theorem decoder_8bit_witness:
  "resultCodeIsOk sda (ucast (4 :: 8 word)) = ([Log Warn msg_bit2], True) \<and>
   resultCodeIsOk sda (ucast (1 :: 8 word)) = ([Log Error msg_bit0], False) \<and>
   resultCodeIsOk sda (ucast (0 :: 8 word)) = ([], True)"
  using decoder_8bit [of sda 4] decoder_8bit [of sda 1] decoder_8bit [of sda 0]
  by (simp add: table_log_eq)

lemma low_bits_clear:
  assumes "(b::int64) AND 255 = 0" and "k < 8"
  shows "\<not> bit b k"
proof
  assume "bit b k"
  have m: "(255::int64) = mask 8" by (simp add: mask_eq_exp_minus_1)
  have "bit (b AND 255) k"
    unfolding m using \<open>bit b k\<close> \<open>k < 8\<close> by (simp add: bit_and_iff bit_mask_iff)
  with assms(1) show False by simp
qed

text \<open>
  Claim C10. On every \<^verbatim>\<open>int64\<close> the status-code check answers "inadmissible" exactly when
  the code is strictly positive and has bit 0 or bit 1 set. Hence a code that is zero or
  negative, and a code none of whose bits 0 to 7 is set (256, say), is admissible, and the
  decoder logs nothing for it.
\<close>

theorem decoder_int64:
  "snd (resultCodeIsOk d b) = (\<not> (0 < sint b \<and> (bit b 0 \<or> bit b 1))) \<and>
   (sint b \<le> 0 \<or> b AND 255 = 0 \<longrightarrow> resultCodeIsOk d b = ([], True))"
proof (intro conjI impI)
  show "snd (resultCodeIsOk d b) = (\<not> (0 < sint b \<and> (bit b 0 \<or> bit b 1)))"
    by (rule resultCodeIsOk_snd)
  assume h: "sint b \<le> 0 \<or> b AND 255 = 0"
  show "resultCodeIsOk d b = ([], True)"
  proof (rule prod_eqI)
    from h show "fst (resultCodeIsOk d b) = fst ([], True)"
    proof
      assume "sint b \<le> 0" then show ?thesis by (simp add: resultCodeIsOk_fst)
    next
      assume z: "b AND 255 = 0"
      show ?thesis
        by (simp add: resultCodeIsOk_fst low_bits_clear [OF z])
    qed
    from h show "snd (resultCodeIsOk d b) = snd ([], True)"
    proof
      assume "sint b \<le> 0" then show ?thesis by (simp add: resultCodeIsOk_snd)
    next
      assume z: "b AND 255 = 0"
      show ?thesis
        by (simp add: resultCodeIsOk_snd low_bits_clear [OF z])
    qed
  qed
qed

theorem decoder_int64_witness:
  "resultCodeIsOk sda 256 = ([], True) \<and> resultCodeIsOk sda (- 1) = ([], True) \<and>
   resultCodeIsOk sda 0 = ([], True) \<and> \<not> snd (resultCodeIsOk sda 3)"
  using decoder_int64 [of sda 256] decoder_int64 [of sda "- 1"] decoder_int64 [of sda 0]
    decoder_int64 [of sda 3]
  by simp

section \<open>Collecting, scanning and reading: proofs\<close>

lemma TrimPrefix_append: "TrimPrefix (pre @ s) pre = s"
  by (simp add: TrimPrefix_def HasPrefix_def)

lemma TrimPrefix_Nil: "TrimPrefix [] artifact = []"
  by (simp add: TrimPrefix_def HasPrefix_def artifact_def)

lemma readSMARTctl_cache:
  "snd (readSMARTctl G d res now c) =
     (if snd (resultCodeIsOk d (status_code G (collected G res))) \<and>
         snd (jsonIsOk G (collected G res))
      then c(DevKey d \<mapsto> \<lparr>JSON = collected G res, LastCollect = now\<rparr>)
      else c)"
  by (simp add: readSMARTctl_def Let_def status_code_def collected_def)

lemma readSMARTctl_log:
  "fst (readSMARTctl G d res now c) =
     [Log Debug ''Calling smartctl with args''] @
     (if snd res \<noteq> None then [Log Warn ''S.M.A.R.T. output reading''] else []) @
     fst (resultCodeIsOk d (status_code G (collected G res))) @
     fst (jsonIsOk G (collected G res)) @
     [Log Debug ''Collected S.M.A.R.T. json data'']"
  by (simp add: readSMARTctl_def Let_def status_code_def collected_def)

lemma readSMARTctl_frame:
  "k \<noteq> DevKey d \<Longrightarrow> snd (readSMARTctl G d res now c) k = c k"
  by (simp add: readSMARTctl_cache)

lemma scan_messages_find:
  "scan_messages G ms =
     (case find (is_error G) ms of
        None \<Rightarrow> ([], True)
      | Some m \<Rightarrow> ([Log Error (gj_String G (gj_Get G m ''string''))], False))"
  by (induction ms) (simp_all add: is_error_def)

lemma find_is_error:
  "\<exists>m \<in> set ms. is_error G m \<Longrightarrow> \<exists>m. find (is_error G) ms = Some m \<and> is_error G m \<and> m \<in> set ms"
  by (induction ms) auto

lemma jsonIsOk_error:
  assumes "has_error_message G json"
  shows "\<exists>m. find (is_error G) (gj_Array G (gj_Get G json ''smartctl.messages'')) = Some m \<and>
             jsonIsOk G json = ([Log Error (gj_String G (gj_Get G m ''string''))], False)"
proof -
  from assms have ex: "gj_Exists G (gj_Get G json ''smartctl.messages'')"
    and any: "\<exists>m \<in> set (gj_Array G (gj_Get G json ''smartctl.messages'')). is_error G m"
    by (simp_all add: has_error_message_def)
  from find_is_error [OF any] obtain m
    where m: "find (is_error G) (gj_Array G (gj_Get G json ''smartctl.messages'')) = Some m"
    by blast
  have "jsonIsOk G json = ([Log Error (gj_String G (gj_Get G m ''string''))], False)"
    using ex m by (simp add: jsonIsOk_def Let_def scan_messages_find)
  with m show ?thesis by blast
qed

lemma jsonIsOk_snd: "snd (jsonIsOk G json) = (\<not> has_error_message G json)"
proof (cases "has_error_message G json")
  case True
  from jsonIsOk_error [OF this] show ?thesis using True by auto
next
  case False
  then have "gj_Exists G (gj_Get G json ''smartctl.messages'') \<Longrightarrow>
      find (is_error G) (gj_Array G (gj_Get G json ''smartctl.messages'')) = None"
    by (auto simp add: has_error_message_def find_None_iff)
  then show ?thesis using False
    by (auto simp add: jsonIsOk_def Let_def scan_messages_find)
qed

lemma jsonIsOk_absent:
  "\<not> gj_Exists G (gj_Get G json ''smartctl.messages'') \<Longrightarrow> jsonIsOk G json = ([], True)"
  by (simp add: jsonIsOk_def Let_def)

lemma admission:
  "snd (readSMARTctl G d res now c) =
     (if (0 < sint (status_code G (collected G res)) \<and>
          (bit (status_code G (collected G res)) 0 \<or> bit (status_code G (collected G res)) 1)) \<or>
         has_error_message G (collected G res)
      then c
      else c(DevKey d \<mapsto> \<lparr>JSON = collected G res, LastCollect = now\<rparr>))"
  by (simp add: readSMARTctl_cache resultCodeIsOk_snd jsonIsOk_snd)

lemmas sample_texts = doc_healthy_def doc_open_failed_def doc_error_message_def doc_scan_def

lemmas sample_trees =
  tree_healthy_def tree_open_failed_def tree_error_message_def tree_scan_def

lemma sample_Valid_iff:
  "gj_Valid sample_gjson s =
     (s = ''{}'' \<or> s = doc_healthy \<or> s = doc_open_failed \<or> s = doc_error_message \<or> s = doc_scan)"
  by (auto simp add: sample_gjson_def sample_docs_def)

lemma sample_Valid_Nil: "\<not> gj_Valid sample_gjson []"
  by (simp add: sample_Valid_iff sample_texts)

lemma sample_Parse:
  "gj_Parse sample_gjson ''{}'' = Some (JObj [])"
  "gj_Parse sample_gjson doc_healthy = Some tree_healthy"
  "gj_Parse sample_gjson doc_open_failed = Some tree_open_failed"
  "gj_Parse sample_gjson doc_error_message = Some tree_error_message"
  "gj_Parse sample_gjson doc_scan = Some tree_scan"
  by (simp_all add: sample_gjson_def sample_docs_def sample_texts)

lemma sample_ops:
  "gj_Get sample_gjson = sample_Get"
  "gj_Int sample_gjson = sample_Int"
  "gj_Exists sample_gjson r = (r \<noteq> None)"
  "gj_Array sample_gjson = sample_Array"
  "gj_String sample_gjson = sample_String"
  "gj_Zero sample_gjson = None"
  by (simp_all add: sample_gjson_def)

lemma sample_paths:
  "Split (CHR ''.'') ''smartctl.exit_status'' = [''smartctl'', ''exit_status'']"
  "Split (CHR ''.'') ''smartctl.messages'' = [''smartctl'', ''messages'']"
  "Split (CHR ''.'') ''severity'' = [''severity'']"
  "Split (CHR ''.'') ''string'' = [''string'']"
  by simp_all

lemma sample_status:
  "status_code sample_gjson (Some (JObj [])) = 0"
  "status_code sample_gjson (Some tree_healthy) = 0"
  "status_code sample_gjson (Some tree_open_failed) = 2"
  "status_code sample_gjson (Some tree_error_message) = 0"
  by (simp_all add: status_code_def sample_ops sample_Get_def sample_paths sample_trees)

lemma sample_messages:
  "sample_Get (Some (JObj [])) ''smartctl.messages'' = None"
  "sample_Get (Some tree_healthy) ''smartctl.messages'' = None"
  "sample_Get (Some tree_open_failed) ''smartctl.messages'' = None"
  "sample_Get (Some tree_error_message) ''smartctl.messages'' =
     Some (JArr [JObj [(''string'', JStr ''boom''), (''severity'', JStr ''error'')]])"
  by (simp_all add: sample_Get_def sample_paths sample_trees)

lemma sample_has_error:
  "\<not> has_error_message sample_gjson (Some (JObj []))"
  "\<not> has_error_message sample_gjson (Some tree_healthy)"
  "\<not> has_error_message sample_gjson (Some tree_open_failed)"
  "has_error_message sample_gjson (Some tree_error_message)"
  unfolding has_error_message_def is_error_def sample_ops sample_messages
  by (simp_all add: sample_Get_def sample_paths)

lemma sample_untrimmed:
  "TrimPrefix [] artifact = []"
  "TrimPrefix doc_healthy artifact = doc_healthy"
  "TrimPrefix doc_open_failed artifact = doc_open_failed"
  "TrimPrefix doc_error_message artifact = doc_error_message"
  by (simp_all add: TrimPrefix_def HasPrefix_def artifact_def sample_texts)

lemma sample_collected_failure: "collected sample_gjson launch_failure = Some (JObj [])"
  by (simp add: collected_def launch_failure_def parseJSON_def sample_untrimmed
      sample_Valid_Nil sample_Parse)

lemma sample_collected:
  "collected sample_gjson (doc_healthy, e) = Some tree_healthy"
  "collected sample_gjson (doc_open_failed, e) = Some tree_open_failed"
  "collected sample_gjson (doc_error_message, e) = Some tree_error_message"
  by (simp_all add: collected_def parseJSON_def sample_untrimmed sample_Valid_iff sample_Parse)

lemma seeded_sda: "seeded (DevKey sda) = Some \<lparr>JSON = Some tree_healthy, LastCollect = 10\<rparr>"
  by (simp add: seeded_def sample_Parse)

lemma seeded_sdb: "seeded (DevKey sdb) = None"
  by (simp add: seeded_def init_cache_def sda_def sdb_def)

text \<open>
  Claim C1 says that a collection whose process could not be started leaves the cache entry
  of the device unchanged. The code does otherwise. \<^verbatim>\<open>readSMARTctl\<close> logs the warning and
  goes on: the empty output is not valid, so \<^verbatim>\<open>parseJSON\<close> substitutes the empty document;
  the library reads the status code of the empty document as 0 and finds no message list in
  it (the three assumptions, which hold of gjson); both checks pass, and the entry of the
  device is replaced by the empty document with the current time. The sibling
  \<^verbatim>\<open>readSMARTctlDevices\<close> returns on the same error before it parses anything.
\<close>

theorem launch_failure_overwrites:
  assumes "\<not> gj_Valid G []"
    and "status_code G (gj_Parse G ''{}'') = 0"
    and "\<not> gj_Exists G (gj_Get G (gj_Parse G ''{}'') ''smartctl.messages'')"
  shows "readSMARTctl G d launch_failure now c =
           ([Log Debug ''Calling smartctl with args'', Log Warn ''S.M.A.R.T. output reading'',
             Log Debug ''Collected S.M.A.R.T. json data''],
            c(DevKey d \<mapsto> \<lparr>JSON = gj_Parse G ''{}'', LastCollect = now\<rparr>))"
proof -
  have col: "collected G launch_failure = gj_Parse G ''{}''"
    using assms(1) by (simp add: collected_def launch_failure_def TrimPrefix_Nil parseJSON_def)
  have rc: "resultCodeIsOk d (status_code G (gj_Parse G ''{}'')) = ([], True)"
    by (simp add: assms(2) resultCodeIsOk_def)
  have js: "jsonIsOk G (gj_Parse G ''{}'') = ([], True)"
    using assms(3) by (rule jsonIsOk_absent)
  show ?thesis
  proof (rule prod_eqI)
    show "fst (readSMARTctl G d launch_failure now c) =
        fst ([Log Debug ''Calling smartctl with args'', Log Warn ''S.M.A.R.T. output reading'',
              Log Debug ''Collected S.M.A.R.T. json data''],
             c(DevKey d \<mapsto> \<lparr>JSON = gj_Parse G ''{}'', LastCollect = now\<rparr>))"
      by (simp add: readSMARTctl_log col rc js) (simp add: launch_failure_def)
    show "snd (readSMARTctl G d launch_failure now c) =
        snd ([Log Debug ''Calling smartctl with args'', Log Warn ''S.M.A.R.T. output reading'',
              Log Debug ''Collected S.M.A.R.T. json data''],
             c(DevKey d \<mapsto> \<lparr>JSON = gj_Parse G ''{}'', LastCollect = now\<rparr>))"
      by (simp add: readSMARTctl_cache col rc js)
  qed
qed

theorem launch_failure_overwrites_witness:
  "seeded (DevKey sda) = Some \<lparr>JSON = Some tree_healthy, LastCollect = 10\<rparr> \<and>
   snd (readSMARTctl sample_gjson sda launch_failure 20 seeded) (DevKey sda) =
     Some \<lparr>JSON = Some (JObj []), LastCollect = 20\<rparr>"
proof -
  have h1: "\<not> gj_Valid sample_gjson []" by (rule sample_Valid_Nil)
  have h2: "status_code sample_gjson (gj_Parse sample_gjson ''{}'') = 0"
    by (simp add: sample_Parse sample_status)
  have h3: "\<not> gj_Exists sample_gjson
      (gj_Get sample_gjson (gj_Parse sample_gjson ''{}'') ''smartctl.messages'')"
    by (simp add: sample_Parse sample_ops sample_messages)
  show ?thesis
    using launch_failure_overwrites [OF h1 h2 h3, of sda 20 seeded]
    by (simp add: seeded_sda sample_Parse)
qed

text \<open>
  Claim C3. If the message list of a parsed result is present and holds a message whose
  severity is the string "error", then \<^verbatim>\<open>jsonIsOk\<close> answers false and logs, at level Error,
  the text of the first such message in list order, and the collection leaves the cache as
  it is, whatever the status code (0 included). If the message list is absent,
  \<^verbatim>\<open>jsonIsOk\<close> answers true and logs nothing, and the collection stores the result exactly
  when the status-code check passes.
\<close>

theorem error_message_blocks:
  "(has_error_message G json \<longrightarrow>
      (\<exists>m. find (is_error G) (gj_Array G (gj_Get G json ''smartctl.messages'')) = Some m \<and>
           jsonIsOk G json = ([Log Error (gj_String G (gj_Get G m ''string''))], False))) \<and>
   (has_error_message G (collected G res) \<longrightarrow> snd (readSMARTctl G d res now c) = c) \<and>
   (\<not> gj_Exists G (gj_Get G json ''smartctl.messages'') \<longrightarrow> jsonIsOk G json = ([], True)) \<and>
   (\<not> gj_Exists G (gj_Get G (collected G res) ''smartctl.messages'') \<longrightarrow>
      snd (readSMARTctl G d res now c) =
        (if snd (resultCodeIsOk d (status_code G (collected G res)))
         then c(DevKey d \<mapsto> \<lparr>JSON = collected G res, LastCollect = now\<rparr>)
         else c))"
proof (intro conjI impI)
  assume "has_error_message G json"
  then show "\<exists>m. find (is_error G) (gj_Array G (gj_Get G json ''smartctl.messages'')) = Some m \<and>
           jsonIsOk G json = ([Log Error (gj_String G (gj_Get G m ''string''))], False)"
    by (rule jsonIsOk_error)
next
  assume "has_error_message G (collected G res)"
  then show "snd (readSMARTctl G d res now c) = c"
    by (simp add: admission)
next
  assume "\<not> gj_Exists G (gj_Get G json ''smartctl.messages'')"
  then show "jsonIsOk G json = ([], True)"
    by (rule jsonIsOk_absent)
next
  assume "\<not> gj_Exists G (gj_Get G (collected G res) ''smartctl.messages'')"
  then have "jsonIsOk G (collected G res) = ([], True)"
    by (rule jsonIsOk_absent)
  then show "snd (readSMARTctl G d res now c) =
        (if snd (resultCodeIsOk d (status_code G (collected G res)))
         then c(DevKey d \<mapsto> \<lparr>JSON = collected G res, LastCollect = now\<rparr>)
         else c)"
    by (simp add: readSMARTctl_cache)
qed

theorem error_message_blocks_witness:
  "status_code sample_gjson (Some tree_error_message) = 0 \<and>
   jsonIsOk sample_gjson (Some tree_error_message) = ([Log Error ''boom''], False) \<and>
   snd (readSMARTctl sample_gjson sda (doc_error_message, None) 20 seeded) = seeded \<and>
   jsonIsOk sample_gjson (Some tree_healthy) = ([], True) \<and>
   snd (readSMARTctl sample_gjson sdb (doc_healthy, None) 20 seeded) =
     seeded(DevKey sdb \<mapsto> \<lparr>JSON = Some tree_healthy, LastCollect = 20\<rparr>)"
proof -
  have f: "find (is_error sample_gjson)
      (gj_Array sample_gjson (gj_Get sample_gjson (Some tree_error_message) ''smartctl.messages''))
      = Some (Some (JObj [(''string'', JStr ''boom''), (''severity'', JStr ''error'')]))"
    unfolding sample_ops sample_messages
    by (simp add: is_error_def sample_ops sample_Get_def sample_paths)
  have t: "gj_String sample_gjson (gj_Get sample_gjson
      (Some (JObj [(''string'', JStr ''boom''), (''severity'', JStr ''error'')])) ''string'') = ''boom''"
    by (simp add: sample_ops sample_Get_def sample_paths)
  have a: "\<not> gj_Exists sample_gjson (gj_Get sample_gjson (Some tree_healthy) ''smartctl.messages'')"
    by (simp add: sample_ops sample_messages)
  show ?thesis
    using error_message_blocks [of sample_gjson "Some tree_error_message"
        "(doc_error_message, None)" sda 20 seeded]
      error_message_blocks [of sample_gjson "Some tree_healthy" "(doc_healthy, None)" sdb 20 seeded]
    by (simp add: sample_has_error sample_collected sample_status f t a resultCodeIsOk_def)
qed

text \<open>
  Claim C4. A collection that fails admission, because the status code of the parsed
  document is positive with bit 0 or bit 1 set or because the document holds an
  error-severity message, leaves the whole cache as it was; in particular a device with the
  entry \<open>{data, collectedAt: t0}\<close> still has that data and that time.
\<close>

theorem inadmissible_keeps_cache:
  assumes "(0 < sint (status_code G (collected G res)) \<and>
            (bit (status_code G (collected G res)) 0 \<or> bit (status_code G (collected G res)) 1)) \<or>
           has_error_message G (collected G res)"
  shows "snd (readSMARTctl G d res now c) = c"
  using assms by (simp add: admission)

theorem inadmissible_keeps_cache_witness:
  "snd (readSMARTctl sample_gjson sda (doc_error_message, None) 20 seeded) (DevKey sda) =
     Some \<lparr>JSON = Some tree_healthy, LastCollect = 10\<rparr> \<and>
   snd (readSMARTctl sample_gjson sda (doc_open_failed, Some (ExitError 2)) 20 seeded) (DevKey sda) =
     Some \<lparr>JSON = Some tree_healthy, LastCollect = 10\<rparr>"
proof -
  have h1: "(0 < sint (status_code sample_gjson (collected sample_gjson (doc_error_message, None))) \<and>
            (bit (status_code sample_gjson (collected sample_gjson (doc_error_message, None))) 0 \<or>
             bit (status_code sample_gjson (collected sample_gjson (doc_error_message, None))) 1)) \<or>
           has_error_message sample_gjson (collected sample_gjson (doc_error_message, None))"
    by (simp add: sample_collected sample_has_error)
  have h2: "(0 < sint (status_code sample_gjson (collected sample_gjson (doc_open_failed, Some (ExitError 2)))) \<and>
            (bit (status_code sample_gjson (collected sample_gjson (doc_open_failed, Some (ExitError 2)))) 0 \<or>
             bit (status_code sample_gjson (collected sample_gjson (doc_open_failed, Some (ExitError 2)))) 1)) \<or>
           has_error_message sample_gjson (collected sample_gjson (doc_open_failed, Some (ExitError 2)))"
    by (simp add: sample_collected sample_status)
  show ?thesis
    using inadmissible_keeps_cache [OF h1, of sda 20 seeded]
      inadmissible_keeps_cache [OF h2, of sda 20 seeded]
    by (simp add: seeded_sda)
qed

lemma parseJSON_Exists:
  assumes "\<forall>t. gj_Valid G t \<longrightarrow> gj_Exists G (gj_Parse G t)" and "gj_Valid G ''{}''"
  shows "gj_Exists G (parseJSON G out)"
  using assms by (simp add: parseJSON_def)

text \<open>
  Claim C6. When the scan command exits with status 2, \<^verbatim>\<open>readSMARTctlDevices\<close> logs no
  warning and returns the document parsed from the captured output, the same value as after
  a successful exit; for a library whose parses of valid texts exist while the zero result
  does not (as gjson's do) that value is not the zero result. For any other exit status
  reported as an \<^verbatim>\<open>ExitError\<close>, and when the process could not be started, it logs a warning
  and returns the zero \<^verbatim>\<open>gjson.Result\<close>. It never fails: every outcome gives a value.
\<close>

theorem scan_exit_status:
  "readSMARTctlDevices G (out, Some (ExitError 2)) =
     ([Log Debug ''Scanning for devices'', Log Debug ''Exit Status''], parseJSON G out) \<and>
   snd (readSMARTctlDevices G (out, Some (ExitError 2))) = snd (readSMARTctlDevices G (out, None)) \<and>
   ((\<forall>t. gj_Valid G t \<longrightarrow> gj_Exists G (gj_Parse G t)) \<and> gj_Valid G ''{}'' \<and>
    \<not> gj_Exists G (gj_Zero G) \<longrightarrow>
      snd (readSMARTctlDevices G (out, Some (ExitError 2))) \<noteq> gj_Zero G) \<and>
   (code \<noteq> 2 \<longrightarrow>
      readSMARTctlDevices G (out, Some (ExitError code)) =
        ([Log Debug ''Scanning for devices'', Log Debug ''Exit Status'',
          Log Warn ''S.M.A.R.T. output reading error''], gj_Zero G)) \<and>
   readSMARTctlDevices G (out, Some StartError) =
     ([Log Debug ''Scanning for devices'', Log Warn ''S.M.A.R.T. output reading error''], gj_Zero G)"
proof -
  have e: "readSMARTctlDevices G (out, Some (ExitError 2)) =
     ([Log Debug ''Scanning for devices'', Log Debug ''Exit Status''], parseJSON G out)"
    by (simp add: readSMARTctlDevices_def)
  have n: "(\<forall>t. gj_Valid G t \<longrightarrow> gj_Exists G (gj_Parse G t)) \<and> gj_Valid G ''{}'' \<and>
    \<not> gj_Exists G (gj_Zero G) \<longrightarrow>
      snd (readSMARTctlDevices G (out, Some (ExitError 2))) \<noteq> gj_Zero G"
  proof
    assume h: "(\<forall>t. gj_Valid G t \<longrightarrow> gj_Exists G (gj_Parse G t)) \<and> gj_Valid G ''{}'' \<and>
      \<not> gj_Exists G (gj_Zero G)"
    then have "gj_Exists G (parseJSON G out)" by (simp add: parseJSON_Exists)
    with h have "parseJSON G out \<noteq> gj_Zero G" by auto
    then show "snd (readSMARTctlDevices G (out, Some (ExitError 2))) \<noteq> gj_Zero G"
      by (simp add: e)
  qed
  show ?thesis
    using e n by (simp add: readSMARTctlDevices_def)
qed

lemma sample_Parse_Exists:
  "\<forall>t. gj_Valid sample_gjson t \<longrightarrow> gj_Exists sample_gjson (gj_Parse sample_gjson t)"
  by (simp add: sample_gjson_def)

theorem scan_exit_status_witness:
  "readSMARTctlDevices sample_gjson (doc_scan, Some (ExitError 2)) =
     ([Log Debug ''Scanning for devices'', Log Debug ''Exit Status''], Some tree_scan) \<and>
   Some tree_scan \<noteq> gj_Zero sample_gjson \<and>
   readSMARTctlDevices sample_gjson (doc_scan, Some (ExitError 1)) =
     ([Log Debug ''Scanning for devices'', Log Debug ''Exit Status'',
       Log Warn ''S.M.A.R.T. output reading error''], None) \<and>
   readSMARTctlDevices sample_gjson launch_failure =
     ([Log Debug ''Scanning for devices'', Log Warn ''S.M.A.R.T. output reading error''], None)"
  using scan_exit_status [of sample_gjson doc_scan 1] scan_exit_status [of sample_gjson "[]" 1]
    sample_Parse_Exists
  by (simp add: parseJSON_def sample_Valid_iff sample_Parse sample_ops launch_failure_def)

text \<open>
  Claim C7. The artifact that \<^verbatim>\<open>readSMARTctl\<close> strips is the text
  \<^verbatim>\<open>"  Pending defect count:"\<close> at the start of the output. For every output made of the
  artifact followed by a text \<open>doc\<close>, what is parsed is \<open>doc\<close>: if \<open>doc\<close> is valid the parsed
  document is the library's parse of \<open>doc\<close>, and the cache after the collection is what
  admission of that document gives.
\<close>

theorem artifact_stripped:
  "TrimPrefix (artifact @ doc) artifact = doc \<and>
   (gj_Valid G doc \<longrightarrow> collected G (artifact @ doc, err) = gj_Parse G doc) \<and>
   snd (readSMARTctl G d (artifact @ doc, err) now c) =
     (if snd (resultCodeIsOk d (status_code G (parseJSON G doc))) \<and> snd (jsonIsOk G (parseJSON G doc))
      then c(DevKey d \<mapsto> \<lparr>JSON = parseJSON G doc, LastCollect = now\<rparr>)
      else c)"
  by (simp add: readSMARTctl_cache collected_def TrimPrefix_append parseJSON_def)

theorem artifact_stripped_witness:
  "gj_Valid sample_gjson doc_healthy \<and>
   collected sample_gjson (artifact @ doc_healthy, None) = Some tree_healthy \<and>
   snd (readSMARTctl sample_gjson sdb (artifact @ doc_healthy, None) 20 seeded) =
     seeded(DevKey sdb \<mapsto> \<lparr>JSON = Some tree_healthy, LastCollect = 20\<rparr>)"
proof -
  have v: "gj_Valid sample_gjson doc_healthy" by (simp add: sample_Valid_iff)
  have p: "parseJSON sample_gjson doc_healthy = Some tree_healthy"
    by (simp add: parseJSON_def v sample_Parse)
  show ?thesis
    using artifact_stripped [of doc_healthy sample_gjson None sdb 20 seeded]
    by (simp add: v p sample_Parse sample_status sample_has_error jsonIsOk_snd resultCodeIsOk_def)
qed




text \<open>
  Reading in fake mode: the slice \<^verbatim>\<open>strings.Split\<close> returns is never empty, and a device
  named \<^verbatim>\<open>/dev/sda\<close> is read from \<^verbatim>\<open>debug/sda.json\<close>.
\<close>

lemma Split_nonempty: "Split sep s \<noteq> []"
  by (induction s) (simp_all split: list.splits)

lemma Split_sda: "last (Split (CHR ''/'') (Name sda)) = ''sda''"
  by (simp add: sda_def)

lemma readFakeSMARTctl_example:
  "readFakeSMARTctl sample_gjson [''debug/sda.json'' \<mapsto> doc_healthy] sda =
     ([Log Debug ''Read fake S.M.A.R.T. data from json''], Some tree_healthy)"
  by (simp add: readFakeSMARTctl_def Split_sda parseJSON_def sample_Valid_iff sample_Parse)

text \<open>
  Claim C9. Outside fake mode, reading a device that has no cache entry logs one warning
  and returns the zero \<^verbatim>\<open>gjson.Result\<close>, the empty value on which every lookup is absent;
  it does not fail.
\<close>

theorem unknown_device_read:
  assumes "c (DevKey device) = None"
  shows "readData G False ReadFile c device = ([Log Warn ''device not found''], gj_Zero G)"
  using assms by (simp add: readData_def)

theorem unknown_device_read_witness:
  "init_cache sample_gjson (DevKey sda) = None \<and>
   readData sample_gjson False Map.empty (init_cache sample_gjson) sda =
     ([Log Warn ''device not found''], None)"
proof -
  have h: "init_cache sample_gjson (DevKey sda) = None" by (simp add: init_cache_def)
  show ?thesis
    using unknown_device_read [where c = "init_cache sample_gjson" and device = sda
        and G = sample_gjson and ReadFile = Map.empty] h
    by (simp add: sample_ops)
qed

section \<open>Refreshing all devices: proofs\<close>

lemma inv_start: "refresh_inv fake interval devices c (start devices c)"
  by (simp add: refresh_inv_def start_def)

lemma scheduled_visited:
  assumes "scheduled s = map v_dev (filter (stale_visit interval) (visited s))"
  shows "set (scheduled s) \<subseteq> set (map v_dev (visited s))"
  using assms by auto

lemma inv_Return:
  assumes "refresh_inv fake interval devices c s" and "fire G fake interval s Return = Some s'"
  shows "refresh_inv fake interval devices c s'"
proof -
  from assms(2) have s': "s' = s\<lparr>returned := True\<rparr>" and en: "fake \<or> (todo s = [] \<and> wg s = 0)"
    by (auto split: if_splits)
  from assms(1) en show ?thesis
    unfolding s' refresh_inv_def by auto
qed

lemma inv_Examine:
  assumes i: "refresh_inv fake interval devices c s"
    and f: "fire G fake interval s (Examine now) = Some s'"
  shows "refresh_inv fake interval devices c s'"
proof -
  from f have nf: "\<not> fake" and nr: "\<not> returned s"
    by (auto split: if_splits)
  from f nf nr obtain d rest where t: "todo s = d # rest"
    by (cases "todo s") (auto split: if_splits)
  let ?v = "\<lparr>v_dev = d, v_entry = jsonCache s (DevKey d), v_now = now\<rparr>"
  let ?s1 = "s\<lparr>todo := rest, visited := visited s @ [?v]\<rparr>"
  have s': "s' = (if isStale (jsonCache s (DevKey d)) interval now
                  then ?s1\<lparr>wg := wg s + 1, running := running s @ [d],
                           scheduled := scheduled s @ [d]\<rparr>
                  else ?s1)"
    using f nf nr t by (auto simp add: Let_def split: if_splits)
  have devs: "map v_dev (visited s) @ todo s = devices"
    and sch: "scheduled s = map v_dev (filter (stale_visit interval) (visited s))"
    and cnt: "wg s = length (running s)"
    and ms: "mset (scheduled s) = mset (running s) + mset (finished s)"
    and frame: "\<forall>k. k \<notin> DevKey ` set (scheduled s) \<longrightarrow> jsonCache s k = c k"
    and dist: "distinct devices \<longrightarrow> (\<forall>v \<in> set (visited s). v_entry v = c (DevKey (v_dev v)))"
    using i unfolding refresh_inv_def by blast+
  have seen: "distinct devices \<Longrightarrow> jsonCache s (DevKey d) = c (DevKey d)"
  proof -
    assume "distinct devices"
    with devs t have "d \<notin> set (map v_dev (visited s))"
      by (metis distinct_append disjoint_iff list.set_intros(1))
    with scheduled_visited [OF sch] have "d \<notin> set (scheduled s)" by blast
    then have "DevKey d \<notin> DevKey ` set (scheduled s)" by auto
    with frame show ?thesis by blast
  qed
  show ?thesis
  proof (cases "isStale (jsonCache s (DevKey d)) interval now")
    case True
    then have sv: "stale_visit interval ?v" by (simp add: stale_visit_def)
    show ?thesis
      unfolding refresh_inv_def
      using True s' devs t sch cnt ms frame dist seen nf nr sv
      by auto
  next
    case False
    then have sv: "\<not> stale_visit interval ?v" by (simp add: stale_visit_def)
    show ?thesis
      unfolding refresh_inv_def
      using False s' devs t sch cnt ms frame dist seen nf nr sv
      by auto
  qed
qed

lemma inv_Finish:
  assumes i: "refresh_inv fake interval devices c s"
    and f: "fire G fake interval s (Finish d res now) = Some s'"
  shows "refresh_inv fake interval devices c s'"
proof -
  from f have run: "d \<in> set (running s)" and pos: "wg s \<noteq> 0"
    by (auto split: if_splits)
  from f have s': "s' = s\<lparr>jsonCache := snd (readSMARTctl G d res now (jsonCache s)),
                   running := remove1 d (running s), wg := wg s - 1,
                   finished := finished s @ [d]\<rparr>"
    by (auto split: if_splits)
  have devs: "map v_dev (visited s) @ todo s = devices"
    and sch: "scheduled s = map v_dev (filter (stale_visit interval) (visited s))"
    and cnt: "wg s = length (running s)"
    and ms: "mset (scheduled s) = mset (running s) + mset (finished s)"
    and frame: "\<forall>k. k \<notin> DevKey ` set (scheduled s) \<longrightarrow> jsonCache s k = c k"
    and dist: "distinct devices \<longrightarrow> (\<forall>v \<in> set (visited s). v_entry v = c (DevKey (v_dev v)))"
    and fk: "fake \<longrightarrow> visited s = [] \<and> scheduled s = []"
    and ret: "returned s \<and> \<not> fake \<longrightarrow> todo s = [] \<and> running s = []"
    using i unfolding refresh_inv_def by blast+
  from run ms have dsch: "d \<in> set (scheduled s)"
    by (metis mset_subset_eq_add_left set_mset_mono set_mset_mset subsetD)
  have cnt': "wg s - 1 = length (remove1 d (running s))"
    using run cnt by (simp add: length_remove1)
  have ms': "mset (scheduled s) = mset (remove1 d (running s)) + mset (finished s @ [d])"
    using run ms by simp
  have frame': "\<forall>k. k \<notin> DevKey ` set (scheduled s) \<longrightarrow>
      snd (readSMARTctl G d res now (jsonCache s)) k = c k"
  proof (intro allI impI)
    fix k assume k: "k \<notin> DevKey ` set (scheduled s)"
    with dsch have "k \<noteq> DevKey d" by auto
    then show "snd (readSMARTctl G d res now (jsonCache s)) k = c k"
      using frame k by (simp add: readSMARTctl_frame)
  qed
  have ret': "returned s \<and> \<not> fake \<longrightarrow> todo s = [] \<and> remove1 d (running s) = []"
    using ret run by auto
  show ?thesis
    unfolding refresh_inv_def s'
    using devs sch cnt' ms' frame' dist fk ret'
    by simp
qed

lemma inv_fire:
  assumes "refresh_inv fake interval devices c s" and "fire G fake interval s e = Some s'"
  shows "refresh_inv fake interval devices c s'"
proof (cases e)
  case (Examine now)
  with assms show ?thesis by (simp only: inv_Examine)
next
  case (Finish d res now)
  with assms show ?thesis by (simp only: inv_Finish)
next
  case Return
  with assms show ?thesis by (simp only: inv_Return)
qed

lemma inv_run:
  "refresh_inv fake interval devices c s \<Longrightarrow> run G fake interval s es = Some s' \<Longrightarrow>
   refresh_inv fake interval devices c s'"
proof (induction es arbitrary: s)
  case Nil
  then show ?case by simp
next
  case (Cons e es)
  from Cons.prems(2) obtain s1 where f: "fire G fake interval s e = Some s1"
    and r: "run G fake interval s1 es = Some s'"
    by (auto split: option.splits)
  from inv_fire [OF Cons.prems(1) f] have "refresh_inv fake interval devices c s1" .
  from Cons.IH [OF this r] show ?case .
qed

lemma stale_visit_eq: "stale_visit interval = (\<lambda>v. isStale (v_entry v) interval (v_now v))"
  by (rule ext) (simp add: stale_visit_def)

text \<open>
  Claim C5, as amended. Take any schedule of a call of \<^verbatim>\<open>refreshAllDevices\<close> after which
  the call has returned. In fake mode nothing was examined or scheduled and the cache is as
  it was. Outside fake mode every entry of the device list was examined once, in order; a
  collection was scheduled for exactly the entries that were stale when examined (no cache
  entry, or the time of the check past \<open>LastCollect + interval\<close>), one each, and none for
  the others; no goroutine is still running and the wait counter is zero, so the collections
  that completed are the collections that were scheduled. In both modes the cache entries of
  devices that got no collection are untouched, and when no device is listed twice the
  entry examined for a device is the one it had when the call began, so that each stale
  device gets exactly one collection.
\<close>

theorem refreshAll_schedules:
  assumes "refreshAllDevices G fake interval devices c schedule = Some s" and "returned s"
  shows "(fake \<longrightarrow> scheduled s = [] \<and> visited s = [] \<and> jsonCache s = c) \<and>
         (\<not> fake \<longrightarrow>
            map v_dev (visited s) = devices \<and>
            scheduled s =
              map v_dev (filter (\<lambda>v. isStale (v_entry v) interval (v_now v)) (visited s)) \<and>
            running s = [] \<and> wg s = 0 \<and> mset (finished s) = mset (scheduled s)) \<and>
         (\<forall>k. k \<notin> DevKey ` set (scheduled s) \<longrightarrow> jsonCache s k = c k) \<and>
         (distinct devices \<longrightarrow> (\<forall>v \<in> set (visited s). v_entry v = c (DevKey (v_dev v))))"
proof -
  from assms(1) have "run G fake interval (start devices c) schedule = Some s"
    by (simp add: refreshAllDevices_def)
  from inv_run [OF inv_start this] have i: "refresh_inv fake interval devices c s" .
  have devs: "map v_dev (visited s) @ todo s = devices"
    and sch: "scheduled s = map v_dev (filter (stale_visit interval) (visited s))"
    and cnt: "wg s = length (running s)"
    and ms: "mset (scheduled s) = mset (running s) + mset (finished s)"
    and frame: "\<forall>k. k \<notin> DevKey ` set (scheduled s) \<longrightarrow> jsonCache s k = c k"
    and dist: "distinct devices \<longrightarrow> (\<forall>v \<in> set (visited s). v_entry v = c (DevKey (v_dev v)))"
    and fk: "fake \<longrightarrow> visited s = [] \<and> scheduled s = []"
    and ret: "returned s \<and> \<not> fake \<longrightarrow> todo s = [] \<and> running s = []"
    using i unfolding refresh_inv_def by blast+
  have a: "fake \<longrightarrow> scheduled s = [] \<and> visited s = [] \<and> jsonCache s = c"
  proof
    assume fake
    with fk have e: "scheduled s = []" "visited s = []" by simp_all
    with frame have "jsonCache s = c" by (intro ext) simp
    with e show "scheduled s = [] \<and> visited s = [] \<and> jsonCache s = c" by simp
  qed
  have b: "\<not> fake \<longrightarrow>
            map v_dev (visited s) = devices \<and>
            scheduled s =
              map v_dev (filter (\<lambda>v. isStale (v_entry v) interval (v_now v)) (visited s)) \<and>
            running s = [] \<and> wg s = 0 \<and> mset (finished s) = mset (scheduled s)"
  proof
    assume "\<not> fake"
    with ret assms(2) have t: "todo s = []" and r: "running s = []" by simp_all
    from devs t have 1: "map v_dev (visited s) = devices" by simp
    from sch have 2: "scheduled s =
        map v_dev (filter (\<lambda>v. isStale (v_entry v) interval (v_now v)) (visited s))"
      by (simp only: stale_visit_eq)
    from cnt r have 3: "wg s = 0" by simp
    from ms r have 4: "mset (finished s) = mset (scheduled s)" by simp
    from 1 2 r 3 4 show "map v_dev (visited s) = devices \<and>
            scheduled s =
              map v_dev (filter (\<lambda>v. isStale (v_entry v) interval (v_now v)) (visited s)) \<and>
            running s = [] \<and> wg s = 0 \<and> mset (finished s) = mset (scheduled s)"
      by blast
  qed
  from a b frame dist show ?thesis by blast
qed

lemma sample_devices_differ:
  "sda \<noteq> sdb" "sda \<noteq> sdc" "sdb \<noteq> sda" "sdb \<noteq> sdc" "sdc \<noteq> sda" "sdc \<noteq> sdb"
  by (simp_all add: sda_def sdb_def sdc_def)

lemma seeded_two_entries:
  "seeded_two (DevKey sda) = Some \<lparr>JSON = Some tree_healthy, LastCollect = 10\<rparr>"
  "seeded_two (DevKey sdb) = None"
  "seeded_two (DevKey sdc) = Some \<lparr>JSON = Some tree_healthy, LastCollect = 45\<rparr>"
  by (simp_all add: seeded_two_def seeded_sda seeded_sdb sample_devices_differ sample_Parse)

lemma sample_store:
  "snd (readSMARTctl sample_gjson d (doc_healthy, None) now c) =
     c(DevKey d \<mapsto> \<lparr>JSON = Some tree_healthy, LastCollect = now\<rparr>)"
  by (simp add: admission sample_collected sample_status sample_has_error)

lemma sample_reject:
  "snd (readSMARTctl sample_gjson d (doc_open_failed, Some (ExitError 2)) now c) = c"
  by (simp add: admission sample_collected sample_status)

text \<open>
  A call on three devices at interval 60: \<^verbatim>\<open>/dev/sda\<close> was collected at 10 and is examined
  at 80, so its entry has expired; \<^verbatim>\<open>/dev/sdb\<close> has no entry; \<^verbatim>\<open>/dev/sdc\<close> was collected at
  45 and is examined at 83, so it is fresh. The collection of \<^verbatim>\<open>/dev/sdb\<close> stores a time
  earlier than the check before it, and the collection of \<^verbatim>\<open>/dev/sda\<close> fails admission.
\<close>

lemma sample_run:
  "refreshAllDevices sample_gjson False 60 [sda, sdb, sdc] seeded_two
     [Examine 80, Examine 82, Finish sdb (doc_healthy, None) 81, Examine 83,
      Finish sda (doc_open_failed, Some (ExitError 2)) 84, Return] =
   Some \<lparr>todo = [], wg = 0, running = [],
         jsonCache = seeded_two(DevKey sdb \<mapsto> \<lparr>JSON = Some tree_healthy, LastCollect = 81\<rparr>),
         returned = True,
         visited = [\<lparr>v_dev = sda, v_entry = Some \<lparr>JSON = Some tree_healthy, LastCollect = 10\<rparr>,
                      v_now = 80\<rparr>,
                    \<lparr>v_dev = sdb, v_entry = None, v_now = 82\<rparr>,
                    \<lparr>v_dev = sdc, v_entry = Some \<lparr>JSON = Some tree_healthy, LastCollect = 45\<rparr>,
                      v_now = 83\<rparr>],
         scheduled = [sda, sdb], finished = [sdb, sda]\<rparr>"
  by (simp add: refreshAllDevices_def start_def seeded_two_entries isStale_def sample_store
      sample_reject sample_devices_differ)

theorem refreshAll_schedules_witness:
  "refreshAllDevices sample_gjson False 60 [sda, sdb, sdc] seeded_two
     [Examine 80, Examine 82, Finish sdb (doc_healthy, None) 81, Examine 83,
      Finish sda (doc_open_failed, Some (ExitError 2)) 84, Return] =
   Some \<lparr>todo = [], wg = 0, running = [],
         jsonCache = seeded_two(DevKey sdb \<mapsto> \<lparr>JSON = Some tree_healthy, LastCollect = 81\<rparr>),
         returned = True,
         visited = [\<lparr>v_dev = sda, v_entry = Some \<lparr>JSON = Some tree_healthy, LastCollect = 10\<rparr>,
                      v_now = 80\<rparr>,
                    \<lparr>v_dev = sdb, v_entry = None, v_now = 82\<rparr>,
                    \<lparr>v_dev = sdc, v_entry = Some \<lparr>JSON = Some tree_healthy, LastCollect = 45\<rparr>,
                      v_now = 83\<rparr>],
         scheduled = [sda, sdb], finished = [sdb, sda]\<rparr> \<and>
   isStale (seeded_two (DevKey sda)) 60 80 \<and> isStale (seeded_two (DevKey sdb)) 60 82 \<and>
   \<not> isStale (seeded_two (DevKey sdc)) 60 83 \<and> distinct [sda, sdb, sdc] \<and>
   (seeded_two(DevKey sdb \<mapsto> \<lparr>JSON = Some tree_healthy, LastCollect = 81\<rparr>)) (DevKey sdc) =
     seeded_two (DevKey sdc)"
  using refreshAll_schedules [OF sample_run]
  by (simp add: sample_run seeded_two_entries isStale_def sample_devices_differ)

text \<open>
  Claim C5 as stated fails in two ways. It leaves the fake-data flag out: with the flag set
  the call returns at once, and \<^verbatim>\<open>/dev/sda\<close>, which has no cache entry and so is stale, is
  neither examined nor collected. And it counts devices where the loop counts entries of the
  list: \<^verbatim>\<open>/dev/sdb\<close>, stale and listed twice, is examined twice before either goroutine has
  stored anything, and gets two collections.
\<close>

theorem refreshAll_counterexample:
  "refreshAllDevices sample_gjson True 60 [sda] (init_cache sample_gjson) [Return] =
     Some \<lparr>todo = [sda], wg = 0, running = [], jsonCache = init_cache sample_gjson,
           returned = True, visited = [], scheduled = [], finished = []\<rparr> \<and>
   isStale (init_cache sample_gjson (DevKey sda)) 60 100 \<and>
   refreshAllDevices sample_gjson False 60 [sdb, sdb] seeded
     [Examine 50, Examine 50, Finish sdb (doc_healthy, None) 51,
      Finish sdb (doc_healthy, None) 52, Return] =
     Some \<lparr>todo = [], wg = 0, running = [],
           jsonCache = seeded(DevKey sdb \<mapsto> \<lparr>JSON = Some tree_healthy, LastCollect = 52\<rparr>),
           returned = True,
           visited = [\<lparr>v_dev = sdb, v_entry = None, v_now = 50\<rparr>,
                      \<lparr>v_dev = sdb, v_entry = None, v_now = 50\<rparr>],
           scheduled = [sdb, sdb], finished = [sdb, sdb]\<rparr>"
  by (simp add: refreshAllDevices_def start_def isStale_def init_cache_def seeded_sdb
      sample_store)

text \<open>
  The call can always return: in fake mode at once, otherwise under the schedule that runs
  the loop to its end and then lets every goroutine complete.
\<close>

lemma run_append:
  "run G fake interval s (es @ fs) =
     (case run G fake interval s es of None \<Rightarrow> None | Some s' \<Rightarrow> run G fake interval s' fs)"
  by (induction es arbitrary: s) (simp_all split: option.splits)

lemma examine_all:
  "length (todo s) = n \<Longrightarrow> \<not> returned s \<Longrightarrow> wg s = length (running s) \<Longrightarrow>
   \<exists>s'. run G False interval s (replicate n (Examine t)) = Some s' \<and>
        todo s' = [] \<and> \<not> returned s' \<and> wg s' = length (running s')"
proof (induction n arbitrary: s)
  case 0
  then show ?case by simp
next
  case (Suc n)
  then obtain d rest where t: "todo s = d # rest" and l: "length rest = n"
    by (cases "todo s") auto
  have "\<exists>s1. fire G False interval s (Examine t) = Some s1 \<and>
      todo s1 = rest \<and> \<not> returned s1 \<and> wg s1 = length (running s1)"
    using t Suc.prems(2,3)
    by (cases "isStale (jsonCache s (DevKey d)) interval t") (simp_all add: Let_def)
  then obtain s1 where f: "fire G False interval s (Examine t) = Some s1"
    and p: "todo s1 = rest" "\<not> returned s1" "wg s1 = length (running s1)"
    by blast
  from Suc.IH [of s1] p l obtain s' where
    "run G False interval s1 (replicate n (Examine t)) = Some s'"
    "todo s' = []" "\<not> returned s'" "wg s' = length (running s')"
    by auto
  with f show ?case by auto
qed

lemma finish_all:
  "running s = ds \<Longrightarrow> todo s = [] \<Longrightarrow> \<not> returned s \<Longrightarrow> wg s = length ds \<Longrightarrow>
   \<exists>s'. run G False interval s (map (\<lambda>d. Finish d res t) ds) = Some s' \<and>
        todo s' = [] \<and> \<not> returned s' \<and> wg s' = 0 \<and> running s' = []"
proof (induction ds arbitrary: s)
  case Nil
  then show ?case by simp
next
  case (Cons d ds)
  let ?s1 = "s\<lparr>jsonCache := snd (readSMARTctl G d res t (jsonCache s)),
               running := ds, wg := length ds, finished := finished s @ [d]\<rparr>"
  have f: "fire G False interval s (Finish d res t) = Some ?s1"
    using Cons.prems by simp
  from Cons.IH [of ?s1] Cons.prems obtain s' where
    "run G False interval ?s1 (map (\<lambda>d. Finish d res t) ds) = Some s'"
    "todo s' = []" "\<not> returned s'" "wg s' = 0" "running s' = []"
    by auto
  with f show ?case by auto
qed

lemma refreshAll_can_return:
  "\<exists>schedule s. refreshAllDevices G fake interval devices c schedule = Some s \<and> returned s"
proof (cases fake)
  case True
  then have "refreshAllDevices G fake interval devices c [Return] =
      Some ((start devices c)\<lparr>returned := True\<rparr>)"
    by (simp add: refreshAllDevices_def start_def)
  then show ?thesis by force
next
  case False
  let ?s0 = "start devices c :: 'a orch"
  from examine_all [of ?s0 "length devices" G interval 0]
  obtain s1 where 1: "run G False interval ?s0 (replicate (length devices) (Examine 0)) = Some s1"
    and p1: "todo s1 = []" "\<not> returned s1" "wg s1 = length (running s1)"
    by (auto simp add: start_def)
  from finish_all [of s1 "running s1" G interval "([], None)" 0] p1
  obtain s2 where
    2: "run G False interval s1 (map (\<lambda>d. Finish d ([], None) 0) (running s1)) = Some s2"
    and p2: "todo s2 = []" "\<not> returned s2" "wg s2 = 0"
    by auto
  have 3: "run G False interval s2 [Return] = Some (s2\<lparr>returned := True\<rparr>)"
    using p2 by simp
  have "run G False interval ?s0
      (replicate (length devices) (Examine 0) @
       map (\<lambda>d. Finish d ([], None) 0) (running s1) @ [Return]) = Some (s2\<lparr>returned := True\<rparr>)"
    by (simp only: run_append 1 2 3 option.case)
  with False show ?thesis
    unfolding refreshAllDevices_def by force
qed

end
